theory Spec2Isabelle
  imports Main "HOL-Library.Multiset"
begin

section \<open>Data model (types.ts)\<close>

text \<open>
  Optional fields of the TypeScript interfaces are \<open>option\<close> values (\<open>None\<close> is
  \<open>undefined\<close>). The field \<open>id\<close> of the source is written \<open>tweet_id\<close>, \<open>user_id\<close>
  and \<open>ref_id\<close>, since \<open>id\<close> is the identity function of HOL; the fields that two
  interfaces share carry a prefix in the second one.
\<close>

datatype reference_type = retweeted | quoted | replied_to

record referenced_tweet =
  type :: reference_type
  ref_id :: string

record tweet_public_metrics =
  retweet_count :: int
  reply_count :: int
  like_count :: int
  quote_count :: int
  bookmark_count :: "int option"
  impression_count :: "int option"

record user_public_metrics =
  followers_count :: int
  following_count :: int
  tweet_count :: int
  listed_count :: int

record user =
  user_id :: string
  name :: string
  username :: string
  description :: "string option"
  user_created_at :: "string option"
  profile_image_url :: "string option"
  verified :: "bool option"
  user_public_metrics :: "user_public_metrics option"

record tweet =
  tweet_id :: string
  "text" :: string
  author_id :: "string option"
  conversation_id :: "string option"
  created_at :: "string option"
  in_reply_to_user_id :: "string option"
  referenced_tweets :: "referenced_tweet list option"
  public_metrics :: "tweet_public_metrics option"

record twitter_includes =
  users :: "user list option"
  tweets :: "tweet list option"

record 'a twitter_v2_response =
  data :: 'a
  "includes" :: "twitter_includes option"

record twitter_meta =
  result_count :: int
  newest_id :: "string option"
  oldest_id :: "string option"
  next_token :: "string option"

record 'a twitter_v2_list_response =
  list_data :: "'a list option"
  list_includes :: "twitter_includes option"
  meta :: "twitter_meta option"

record enriched_tweet = tweet +
  author :: "user option"
  referenced_tweet_data :: "tweet option"

record thread_result =
  thread_tweets :: "enriched_tweet list"
  ageWarning :: "string option"

record replies_result =
  originalTweet :: enriched_tweet
  replies :: "enriched_tweet list"
  resultCount :: int

text \<open>JavaScript truthiness of an optional string: \<open>undefined\<close> and \<open>""\<close> are falsy.\<close>

definition truthy :: "string option \<Rightarrow> bool" where
  "truthy s = (case s of None \<Rightarrow> False | Some v \<Rightarrow> v \<noteq> [])"

section \<open>Includes merge (includes.ts)\<close>

text \<open>
  \<open>new Map(entries)\<close> sets the entries one after the other, so that a later entry
  with the same key replaces an earlier one; \<open>new Map(undefined)\<close> is empty.
\<close>

definition new_Map :: "('k \<times> 'v) list \<Rightarrow> ('k \<rightharpoonup> 'v)" where
  "new_Map entries = foldl (\<lambda>m (k, v). m(k \<mapsto> v)) Map.empty entries"

definition buildMaps ::
  "twitter_includes option \<Rightarrow> (string \<rightharpoonup> user) \<times> (string \<rightharpoonup> tweet)" where
  "buildMaps inc =
     (let userMap = new_Map (case inc of None \<Rightarrow> [] | Some i \<Rightarrow>
                       (case users i of None \<Rightarrow> [] | Some us \<Rightarrow> map (\<lambda>u. (user_id u, u)) us));
          tweetMap = new_Map (case inc of None \<Rightarrow> [] | Some i \<Rightarrow>
                       (case tweets i of None \<Rightarrow> [] | Some ts \<Rightarrow> map (\<lambda>t. (tweet_id t, t)) ts))
      in (userMap, tweetMap))"

text \<open>
  The object spread \<open>{...tweet, author, referenced_tweet_data}\<close> copies every field of
  the tweet and then sets the two resolved fields (replacing them when the argument
  already is an enriched tweet).
\<close>

definition enrichTweet ::
  "'a tweet_scheme \<Rightarrow> (string \<rightharpoonup> user) \<Rightarrow> (string \<rightharpoonup> tweet) \<Rightarrow> enriched_tweet" where
  "enrichTweet tw userMap tweetMap =
     tweet.extend (tweet.truncate tw)
       (enriched_tweet.fields
          (if truthy (author_id tw) then userMap (the (author_id tw)) else None)
          (case referenced_tweets tw of
             None \<Rightarrow> None
           | Some [] \<Rightarrow> None
           | Some (r # _) \<Rightarrow> tweetMap (ref_id r)))"

definition mergeSingleTweet :: "'a tweet_scheme twitter_v2_response \<Rightarrow> enriched_tweet" where
  "mergeSingleTweet response =
     (let (userMap, tweetMap) = buildMaps (includes response)
      in enrichTweet (data response) userMap tweetMap)"

definition mergeTweetList ::
  "'a tweet_scheme twitter_v2_list_response \<Rightarrow> enriched_tweet list" where
  "mergeTweetList response =
     (case list_data response of
        None \<Rightarrow> []
      | Some ds \<Rightarrow>
          (let (userMap, tweetMap) = buildMaps (list_includes response)
           in map (\<lambda>tw. enrichTweet tw userMap tweetMap) ds))"

section \<open>Thread reconstruction (thread.ts)\<close>

record thread_field_params =
  tweetFields :: string
  expansions :: string
  userFields :: string

text \<open>
  The \<open>URLSearchParams\<close> of a request, as a record of the keys the code sets (an
  unset key is \<open>None\<close>); \<open>max_results\<close> holds the number that the source passes
  through \<open>String\<close>.
\<close>

record url_params =
  query :: "string option"
  max_results :: "int option"
  tweet_fields :: "string option"
  expansions_param :: "string option"
  user_fields :: "string option"
  next_token_param :: "string option"

definition SEVEN_DAYS_MS :: int where
  "SEVEN_DAYS_MS = 7 * 24 * 60 * 60 * 1000"

definition MAX_THREAD_TWEETS :: int where
  "MAX_THREAD_TWEETS = 200"

text \<open>
  One search request of the pagination loop, kept as a ghost record of the run: the
  parameters sent, the page received and the accumulated items after the page.
\<close>

record search_call =
  call_params :: url_params
  call_page :: "tweet twitter_v2_list_response"
  accumulated :: "enriched_tweet list"

text \<open>The variables of the loop of \<open>buildThread\<close>, and the ghost list of its requests.\<close>

record loop_state =
  allTweets :: "enriched_tweet list"
  seenIds :: "string set"
  nextToken :: "string option"
  fetched :: int
  calls :: "search_call list"

text \<open>The parameters of the next search request (lines 89 to 97).\<close>

definition pageParams :: "int \<Rightarrow> string \<Rightarrow> thread_field_params \<Rightarrow> loop_state \<Rightarrow> url_params" where
  "pageParams cap conversationId fieldParams st =
     (let pageSize = min 100 (cap - fetched st)
      in \<lparr>query = Some (''conversation_id:'' @ conversationId),
          max_results = Some (max pageSize 10),
          tweet_fields = Some (tweetFields fieldParams),
          expansions_param = Some (expansions fieldParams),
          user_fields = Some (userFields fieldParams),
          next_token_param = (if truthy (nextToken st) then nextToken st else None)\<rparr>)"

text \<open>The body of the inner \<open>for\<close> loop (lines 107 to 111).\<close>

definition addTweet ::
  "enriched_tweet list \<times> string set \<times> int \<Rightarrow> enriched_tweet
   \<Rightarrow> enriched_tweet list \<times> string set \<times> int" where
  "addTweet acc tw =
     (case acc of (allT, seen, n) \<Rightarrow>
        if tweet_id tw \<notin> seen then (allT @ [tw], insert (tweet_id tw) seen, n + 1)
        else (allT, seen, n))"

text \<open>The state after a page has been received (lines 104 to 115).\<close>

definition absorbPage ::
  "url_params \<Rightarrow> loop_state \<Rightarrow> tweet twitter_v2_list_response \<Rightarrow> loop_state" where
  "absorbPage params st page =
     (let (allT, seen, n) =
            (if list_data page \<noteq> None
             then foldl addTweet (allTweets st, seenIds st, fetched st) (mergeTweetList page)
             else (allTweets st, seenIds st, fetched st))
      in \<lparr>allTweets = allT, seenIds = seen,
          nextToken = (case meta page of None \<Rightarrow> None | Some m \<Rightarrow> next_token m),
          fetched = n,
          calls = calls st @ [\<lparr>call_params = params, call_page = page, accumulated = allT\<rparr>]\<rparr>)"

text \<open>The \<open>break\<close> of line 116: no cursor, or a page without items.\<close>

definition stopAfter :: "loop_state \<Rightarrow> tweet twitter_v2_list_response \<Rightarrow> bool" where
  "stopAfter st page =
     (\<not> truthy (nextToken st) \<or> (case list_data page of None \<Rightarrow> True | Some ds \<Rightarrow> length ds = 0))"

text \<open>
  The \<open>while\<close> loop. The request function is the environment: \<open>search k params\<close> is
  the answer to the \<open>k\<close>-th search request, an error (\<open>Inl\<close>) when the request
  rejects. A server that keeps returning known items together with a cursor keeps the
  loop running for ever: that run is \<open>None\<close>.
\<close>

partial_function (option) paginate ::
  "(nat \<Rightarrow> url_params \<Rightarrow> 'e + tweet twitter_v2_list_response) \<Rightarrow> int \<Rightarrow> string
   \<Rightarrow> thread_field_params \<Rightarrow> loop_state \<Rightarrow> ('e + loop_state) option" where
  "paginate search cap conversationId fieldParams st =
     (if fetched st < cap then
        (case search (length (calls st)) (pageParams cap conversationId fieldParams st) of
           Inl e \<Rightarrow> Some (Inl e)
         | Inr page \<Rightarrow>
             (let st' = absorbPage (pageParams cap conversationId fieldParams st) st page
              in if stopAfter st' page then Some (Inr st')
                 else paginate search cap conversationId fieldParams st'))
      else Some (Inr st))"

declare paginate.simps [code]

text \<open>
  \<open>new Date(s).getTime()\<close> is a parameter \<open>getTime\<close> of the model: the milliseconds
  of the date, \<open>None\<close> for \<open>NaN\<close> (a string that is no date). The comparator of line
  120 then returns a number or \<open>NaN\<close>.
\<close>

definition compareCreatedAt ::
  "(string \<Rightarrow> int option) \<Rightarrow> enriched_tweet \<Rightarrow> enriched_tweet \<Rightarrow> int option" where
  "compareCreatedAt getTime a b =
     (if \<not> truthy (created_at a) \<or> \<not> truthy (created_at b) then Some 0
      else (case (getTime (the (created_at a)), getTime (the (created_at b))) of
              (Some x, Some y) \<Rightarrow> Some (x - y)
            | _ \<Rightarrow> None))"

text \<open>
  \<open>Array.prototype.sort\<close> is a stable sort; a comparator result \<open>NaN\<close> counts as
  \<open>+0\<close>. For a consistent comparator the result of a stable sort is determined; for
  an inconsistent one the language leaves the order to the implementation, and the
  model fixes stable insertion: an item moves behind a later item only when the later
  item compares strictly smaller.
\<close>

definition sortCompare :: "('a \<Rightarrow> 'a \<Rightarrow> int option) \<Rightarrow> 'a \<Rightarrow> 'a \<Rightarrow> int" where
  "sortCompare comparefn x y = (case comparefn x y of None \<Rightarrow> 0 | Some v \<Rightarrow> v)"

fun insert_stable :: "('a \<Rightarrow> 'a \<Rightarrow> int option) \<Rightarrow> 'a \<Rightarrow> 'a list \<Rightarrow> 'a list" where
  "insert_stable comparefn x [] = [x]"
| "insert_stable comparefn x (y # ys) =
     (if sortCompare comparefn y x < 0 then y # insert_stable comparefn x ys
      else x # y # ys)"

definition array_sort :: "('a \<Rightarrow> 'a \<Rightarrow> int option) \<Rightarrow> 'a list \<Rightarrow> 'a list" where
  "array_sort comparefn xs = foldr (insert_stable comparefn) xs []"

text \<open>The age check of lines 72 to 80; \<open>now\<close> is \<open>Date.now()\<close>.\<close>

definition checkAge :: "(string \<Rightarrow> int option) \<Rightarrow> int \<Rightarrow> 'a tweet_scheme \<Rightarrow> string option" where
  "checkAge getTime now root =
     (if truthy (created_at root) then
        (case getTime (the (created_at root)) of
           None \<Rightarrow> None
         | Some t \<Rightarrow>
             (let tweetAge = now - t
              in if tweetAge > SEVEN_DAYS_MS
                 then Some ''Warning: Tweet is older than 7 days. Search API only returns recent replies.''
                 else None))
      else None)"

text \<open>The conversation identifier of lines 68 and 69 (and of \<open>getReplies\<close>).\<close>

definition conversationIdOf :: "'a tweet_scheme \<Rightarrow> string" where
  "conversationIdOf tw = (case conversation_id tw of Some c \<Rightarrow> c | None \<Rightarrow> tweet_id tw)"

text \<open>The parameters of the root request (lines 58 to 62).\<close>

definition rootParams :: "thread_field_params \<Rightarrow> url_params" where
  "rootParams fieldParams =
     \<lparr>query = None, max_results = None,
      tweet_fields = Some (tweetFields fieldParams),
      expansions_param = Some (expansions fieldParams),
      user_fields = Some (userFields fieldParams),
      next_token_param = None\<rparr>"

text \<open>
  \<open>buildThread\<close>, with the ghost list of its search requests beside the result.
  \<open>root endpoint params\<close> is the answer to the root request.
\<close>

definition buildThread_calls ::
  "(string \<Rightarrow> url_params \<Rightarrow> 'e + tweet twitter_v2_response)
   \<Rightarrow> (nat \<Rightarrow> url_params \<Rightarrow> 'e + tweet twitter_v2_list_response)
   \<Rightarrow> (string \<Rightarrow> int option) \<Rightarrow> int
   \<Rightarrow> string \<Rightarrow> int \<Rightarrow> thread_field_params
   \<Rightarrow> ('e + thread_result \<times> search_call list) option" where
  "buildThread_calls root search getTime now tweetId maxResults fieldParams =
     (let cap = min maxResults MAX_THREAD_TWEETS
      in case root (''/tweets/'' @ tweetId) (rootParams fieldParams) of
           Inl e \<Rightarrow> Some (Inl e)
         | Inr rootResponse \<Rightarrow>
             (let rootTweet = mergeSingleTweet rootResponse;
                  conversationId = conversationIdOf (data rootResponse);
                  warning = checkAge getTime now (data rootResponse)
              in case paginate search cap conversationId fieldParams
                        \<lparr>allTweets = [rootTweet], seenIds = {tweetId}, nextToken = None,
                         fetched = 0, calls = []\<rparr> of
                   None \<Rightarrow> None
                 | Some (Inl e) \<Rightarrow> Some (Inl e)
                 | Some (Inr st) \<Rightarrow>
                     Some (Inr (\<lparr>thread_tweets = array_sort (compareCreatedAt getTime) (allTweets st),
                                 ageWarning = warning\<rparr>,
                                calls st))))"

definition buildThread ::
  "(string \<Rightarrow> url_params \<Rightarrow> 'e + tweet twitter_v2_response)
   \<Rightarrow> (nat \<Rightarrow> url_params \<Rightarrow> 'e + tweet twitter_v2_list_response)
   \<Rightarrow> (string \<Rightarrow> int option) \<Rightarrow> int
   \<Rightarrow> string \<Rightarrow> int \<Rightarrow> thread_field_params \<Rightarrow> ('e + thread_result) option" where
  "buildThread root search getTime now tweetId maxResults fieldParams =
     map_option (map_sum (\<lambda>e. e) fst)
       (buildThread_calls root search getTime now tweetId maxResults fieldParams)"

text \<open>
  The items in insertion order, before the final sort: the seed alone when no page
  was requested, else the accumulated items after the last page.
\<close>

definition insertionOrder :: "enriched_tweet \<Rightarrow> search_call list \<Rightarrow> enriched_tweet list" where
  "insertionOrder rootTweet cs = (if cs = [] then [rootTweet] else accumulated (last cs))"

text \<open>
  The creation time the comparator works with: none when \<open>created_at\<close> is absent or
  empty, or is no date.
\<close>

definition createdTime :: "(string \<Rightarrow> int option) \<Rightarrow> 'a tweet_scheme \<Rightarrow> int option" where
  "createdTime getTime tw =
     (if truthy (created_at tw) then getTime (the (created_at tw)) else None)"

text \<open>
  The halting conditions of the pagination, read on one search request of the run:
  the accumulated items beyond the seed have reached the cap, or the page carried no
  cursor, or the page carried no items.
\<close>

definition halting :: "int \<Rightarrow> search_call \<Rightarrow> bool" where
  "halting cap c =
     (cap \<le> int (length (accumulated c)) - 1
      \<or> \<not> truthy (case meta (call_page c) of None \<Rightarrow> None | Some m \<Rightarrow> next_token m)
      \<or> (case list_data (call_page c) of None \<Rightarrow> True | Some ds \<Rightarrow> length ds = 0))"



definition count_ok :: "enriched_tweet list \<times> string set \<times> int \<Rightarrow> bool" where
  "count_ok acc = (case acc of (allT, seen, n) \<Rightarrow> allT \<noteq> [] \<and> n = int (length allT) - 1)"

definition calls_ok ::
  "(nat \<Rightarrow> url_params \<Rightarrow> 'e + tweet twitter_v2_list_response) \<Rightarrow> enriched_tweet
   \<Rightarrow> int \<Rightarrow> loop_state \<Rightarrow> bool" where
  "calls_ok search rootTweet cap s =
     (count_ok (allTweets s, seenIds s, fetched s)
      \<and> allTweets s = insertionOrder rootTweet (calls s)
      \<and> (\<forall>c \<in> set (calls s). accumulated c \<noteq> [])
      \<and> (\<forall>k < length (calls s). search k (call_params (calls s ! k)) = Inr (call_page (calls s ! k)))
      \<and> (\<forall>c \<in> set (butlast (calls s)). \<not> halting cap c))"

section \<open>Error classification and the request executor (client.ts)\<close>

definition TWEET_FIELDS :: string where
  "TWEET_FIELDS =
     ''author_id,conversation_id,created_at,in_reply_to_user_id,public_metrics,referenced_tweets''"

definition TWEET_EXPANSIONS :: string where
  "TWEET_EXPANSIONS = ''author_id,referenced_tweets.id''"

definition USER_FIELDS :: string where
  "USER_FIELDS = ''created_at,description,profile_image_url,public_metrics,verified''"

datatype error_category = transient | permanent | configuration

record twitter_api_error =
  message :: string
  status :: int
  category :: error_category

text \<open>
  The value that \<open>JSON.parse\<close> returns. The type \<open>'n\<close> of the numbers is left open:
  the code never looks into one. An object holds its properties, each key once.
\<close>

datatype 'n json =
    JNull
  | JBool bool
  | JNumber 'n
  | JString string
  | JArray "'n json list"
  | JObject "(string \<times> 'n json) list"

text \<open>
  Optional chaining: \<open>v?.key\<close> and \<open>v?.[0]\<close>, where \<open>None\<close> is \<open>undefined\<close>. An
  array, a string, a number or a boolean has no property \<open>detail\<close>, \<open>errors\<close> or
  \<open>message\<close>; index 0 of a string is its first character.
\<close>

definition optProp :: "'n json option \<Rightarrow> string \<Rightarrow> 'n json option" where
  "optProp v key =
     (case v of
        Some (JObject props) \<Rightarrow> map_of props key
      | _ \<Rightarrow> None)"

definition optFirst :: "'n json option \<Rightarrow> 'n json option" where
  "optFirst v =
     (case v of
        Some (JArray xs) \<Rightarrow> (case xs of [] \<Rightarrow> None | x # _ \<Rightarrow> Some x)
      | Some (JObject props) \<Rightarrow> map_of props ''0''
      | Some (JString s) \<Rightarrow> (case s of [] \<Rightarrow> None | c # _ \<Rightarrow> Some (JString [c]))
      | _ \<Rightarrow> None)"

text \<open>The operator \<open>??\<close>: the right side when the left one is \<open>undefined\<close> or \<open>null\<close>.\<close>

definition nullish :: "'n json option \<Rightarrow> bool" where
  "nullish v = (v = None \<or> v = Some JNull)"

definition coalesce :: "'n json option \<Rightarrow> 'n json option \<Rightarrow> 'n json option" where
  "coalesce a b = (if nullish a then b else a)"

text \<open>
  A value inside a template literal: a string stands for itself; the conversion
  \<open>String\<close> of any other value is a parameter.
\<close>

definition template :: "('n json \<Rightarrow> string) \<Rightarrow> 'n json option \<Rightarrow> string" where
  "template String_of v =
     (case v of
        None \<Rightarrow> ''undefined''
      | Some (JString s) \<Rightarrow> s
      | Some j \<Rightarrow> String_of j)"

text \<open>A status code inside a template literal: its decimal digits.\<close>

fun digits :: "nat \<Rightarrow> string" where
  "digits n =
     (if n < 10 then [char_of (48 + n)] else digits (n div 10) @ [char_of (48 + n mod 10)])"

definition String_of_int :: "int \<Rightarrow> string" where
  "String_of_int i = (if i < 0 then CHR ''-'' # digits (nat (- i)) else digits (nat i))"

text \<open>
  The \<open>try\<close> block of \<open>parseTwitterError\<close> (lines 64 to 70). \<open>JSON_parse\<close> is a
  parameter; \<open>None\<close> is the exception it throws.
\<close>

definition errorDetail ::
  "(string \<Rightarrow> 'n json option) \<Rightarrow> ('n json \<Rightarrow> string) \<Rightarrow> string \<Rightarrow> string" where
  "errorDetail JSON_parse String_of body =
     (case JSON_parse body of
        None \<Rightarrow> body
      | Some parsed \<Rightarrow>
          template String_of
            (coalesce (coalesce (optProp (Some parsed) ''detail'')
                                (optProp (optFirst (optProp (Some parsed) ''errors'')) ''message''))
                      (Some (JString body))))"

definition parseTwitterError ::
  "(string \<Rightarrow> 'n json option) \<Rightarrow> ('n json \<Rightarrow> string) \<Rightarrow> int \<Rightarrow> string \<Rightarrow> twitter_api_error" where
  "parseTwitterError JSON_parse String_of st body =
     (let detail = errorDetail JSON_parse String_of body
      in if st = 429 then
           \<lparr>message = ''Rate limited: '' @ detail, status = st, category = transient\<rparr>
         else if st = 401 then
           \<lparr>message = ''Auth failed: '' @ detail, status = st, category = configuration\<rparr>
         else if st = 403 then
           \<lparr>message = ''Forbidden: '' @ detail @ '' (check API tier)'', status = st,
            category = configuration\<rparr>
         else if st = 404 then
           \<lparr>message = ''Not found: '' @ detail, status = st, category = permanent\<rparr>
         else if st \<ge> 500 then
           \<lparr>message = ''Server error '' @ String_of_int st @ '': '' @ detail, status = st,
            category = transient\<rparr>
         else
           \<lparr>message = ''API error '' @ String_of_int st @ '': '' @ detail, status = st,
            category = permanent\<rparr>)"

text \<open>
  What the transport does on one attempt: it does not resolve within the timeout, it
  rejects, or it resolves to a response. Of a response the model keeps the status and
  the results of reading the body as text and as JSON (either may reject); the
  rate-limit headers only feed the logger and are left out. \<open>response.ok\<close> is a
  status from 200 to 299.
\<close>

record ('e, 'a) http_response =
  resp_status :: int
  resp_text :: "'e + string"
  resp_json :: "'e + 'a"

datatype ('e, 'a) transport_result =
    TimedOut
  | Rejected 'e
  | Resolved "('e, 'a) http_response"

definition ok :: "('e, 'a) http_response \<Rightarrow> bool" where
  "ok response = (200 \<le> resp_status response \<and> resp_status response \<le> 299)"

datatype 'e failure =
    TimeoutError
  | TwitterApiError twitter_api_error
  | OtherError 'e

text \<open>The function handed to \<open>retry\<close> (lines 136 to 158): one attempt.\<close>

definition attempt ::
  "(string \<Rightarrow> 'n json option) \<Rightarrow> ('n json \<Rightarrow> string) \<Rightarrow> ('e, 'a) transport_result
   \<Rightarrow> 'e failure + 'a" where
  "attempt JSON_parse String_of t =
     (case t of
        TimedOut \<Rightarrow> Inl TimeoutError
      | Rejected e \<Rightarrow> Inl (OtherError e)
      | Resolved response \<Rightarrow>
          if \<not> ok response then
            (case resp_text response of
               Inl e \<Rightarrow> Inl (OtherError e)
             | Inr errorBody \<Rightarrow>
                 Inl (TwitterApiError
                        (parseTwitterError JSON_parse String_of (resp_status response) errorBody)))
          else
            (case resp_json response of
               Inl e \<Rightarrow> Inl (OtherError e)
             | Inr v \<Rightarrow> Inr v))"

text \<open>
  The option \<open>shouldRetry\<close> (lines 162 to 167); \<open>getErrorCategory\<close> is the generic
  category function of the core library, a parameter.
\<close>

definition shouldRetry :: "('e \<Rightarrow> string) \<Rightarrow> 'e failure \<Rightarrow> bool" where
  "shouldRetry getErrorCategory error =
     (case error of
        TimeoutError \<Rightarrow> True
      | TwitterApiError e \<Rightarrow> category e = transient
      | OtherError x \<Rightarrow> getErrorCategory x = ''transient'')"

text \<open>
  Modelled from the spec: the function \<open>retry\<close> of the core library
  (\<open>@side-quest/core/utils\<close>) is not among the sources. The spec gives its policy: up
  to \<open>maxAttempts\<close> attempts in all, a further attempt only after a failure that
  \<open>shouldRetry\<close> accepts, any other failure raised at once, and the last failure
  raised when the attempts are used up. \<open>fn k\<close> is the outcome of the \<open>k\<close>-th call
  of the function; the result comes with the number of calls made. The delay between
  attempts is not modelled.
\<close>

fun retry_from :: "(nat \<Rightarrow> 'x + 'a) \<Rightarrow> ('x \<Rightarrow> bool) \<Rightarrow> nat \<Rightarrow> nat \<Rightarrow> ('x + 'a) \<times> nat" where
  "retry_from fn retryable 0 k = (fn k, Suc k)"
| "retry_from fn retryable (Suc left) k =
     (case fn k of
        Inr v \<Rightarrow> (Inr v, Suc k)
      | Inl e \<Rightarrow> if retryable e then retry_from fn retryable left (Suc k) else (Inl e, Suc k))"

definition retry :: "(nat \<Rightarrow> 'x + 'a) \<Rightarrow> nat \<Rightarrow> ('x \<Rightarrow> bool) \<Rightarrow> ('x + 'a) \<times> nat" where
  "retry fn maxAttempts retryable = retry_from fn retryable (maxAttempts - 1) 0"

text \<open>
  \<open>request\<close> (lines 135 to 169), with the number of attempts beside the result;
  \<open>transport k\<close> is what the transport does on the \<open>k\<close>-th attempt.
\<close>

definition request_attempts ::
  "('e \<Rightarrow> string) \<Rightarrow> (string \<Rightarrow> 'n json option) \<Rightarrow> ('n json \<Rightarrow> string)
   \<Rightarrow> (nat \<Rightarrow> ('e, 'a) transport_result) \<Rightarrow> ('e failure + 'a) \<times> nat" where
  "request_attempts getErrorCategory JSON_parse String_of transport =
     retry (\<lambda>k. attempt JSON_parse String_of (transport k)) 3 (shouldRetry getErrorCategory)"

definition request ::
  "('e \<Rightarrow> string) \<Rightarrow> (string \<Rightarrow> 'n json option) \<Rightarrow> ('n json \<Rightarrow> string)
   \<Rightarrow> (nat \<Rightarrow> ('e, 'a) transport_result) \<Rightarrow> 'e failure + 'a" where
  "request getErrorCategory JSON_parse String_of transport =
     fst (request_attempts getErrorCategory JSON_parse String_of transport)"

text \<open>\<open>defaultTweetParams\<close> and \<open>getReplies\<close> (lines 179 to 185 and 276 to 306).\<close>

definition defaultTweetParams :: url_params where
  "defaultTweetParams =
     \<lparr>query = None, max_results = None, tweet_fields = Some TWEET_FIELDS,
      expansions_param = Some TWEET_EXPANSIONS, user_fields = Some USER_FIELDS,
      next_token_param = None\<rparr>"

definition repliesParams :: "'a tweet_scheme \<Rightarrow> string \<Rightarrow> int \<Rightarrow> url_params" where
  "repliesParams original tweetId maxResults =
     (let conversationId = conversationIdOf original
      in defaultTweetParams
           \<lparr>query := Some (''conversation_id:'' @ conversationId @ '' in_reply_to_tweet_id:'' @ tweetId),
            max_results := Some (min maxResults 100)\<rparr>)"

definition getReplies_calls ::
  "(string \<Rightarrow> url_params \<Rightarrow> 'x + tweet twitter_v2_response)
   \<Rightarrow> (string \<Rightarrow> url_params \<Rightarrow> 'x + tweet twitter_v2_list_response)
   \<Rightarrow> string \<Rightarrow> int \<Rightarrow> 'x + replies_result \<times> (string \<times> url_params) list" where
  "getReplies_calls requestTweet requestList tweetId maxResults =
     (case requestTweet (''/tweets/'' @ tweetId) defaultTweetParams of
        Inl e \<Rightarrow> Inl e
      | Inr original \<Rightarrow>
          (let enrichedOriginal = mergeSingleTweet original;
               params = repliesParams (data original) tweetId maxResults
           in case requestList ''/tweets/search/recent'' params of
                Inl e \<Rightarrow> Inl e
              | Inr response \<Rightarrow>
                  Inr (\<lparr>originalTweet = enrichedOriginal,
                        replies = mergeTweetList response,
                        resultCount = (case meta response of None \<Rightarrow> 0 | Some m \<Rightarrow> result_count m)\<rparr>,
                       [(''/tweets/'' @ tweetId, defaultTweetParams),
                        (''/tweets/search/recent'', params)])))"

definition getReplies ::
  "(string \<Rightarrow> url_params \<Rightarrow> 'x + tweet twitter_v2_response)
   \<Rightarrow> (string \<Rightarrow> url_params \<Rightarrow> 'x + tweet twitter_v2_list_response)
   \<Rightarrow> string \<Rightarrow> int \<Rightarrow> 'x + replies_result" where
  "getReplies requestTweet requestList tweetId maxResults =
     map_sum (\<lambda>e. e) fst (getReplies_calls requestTweet requestList tweetId maxResults)"

section \<open>Fixtures of the test suite (thread.test.ts)\<close>

definition testFields :: thread_field_params where
  "testFields = \<lparr>tweetFields = ''author_id,conversation_id,created_at,public_metrics'',
                  expansions = ''author_id'', userFields = ''name,username''\<rparr>"

definition mockUser :: user where
  "mockUser = \<lparr>user_id = ''user_1'', name = ''Test User'', username = ''testuser'',
                description = None, user_created_at = None, profile_image_url = None,
                verified = None, user_public_metrics = None\<rparr>"

definition makeTweet :: "string \<Rightarrow> string \<Rightarrow> string \<Rightarrow> string \<Rightarrow> tweet" where
  "makeTweet ident txt createdAt conversationId =
     \<lparr>tweet_id = ident, text = txt, author_id = Some ''user_1'',
      conversation_id = Some conversationId, created_at = Some createdAt,
      in_reply_to_user_id = None, referenced_tweets = None, public_metrics = None\<rparr>"

text \<open>
  A clock for the examples: the date strings \<open>''1''\<close> to \<open>''9''\<close> stand for the
  milliseconds 1 to 9, every other string is no date.
\<close>

definition digitTime :: "string \<Rightarrow> int option" where
  "digitTime s =
     (case s of
        [c] \<Rightarrow> (if (49::nat) \<le> of_char c \<and> of_char c \<le> (57::nat)
                then Some (int (of_char c) - 48) else None)
      | _ \<Rightarrow> None)"

text \<open>
  The request functions of the tests: the root request answers with the seed, whose
  creation date is a parameter here, and the \<open>k\<close>-th search request with the
  \<open>k\<close>-th page of a list (it rejects beyond the list).
\<close>

definition seedResponse :: "string \<Rightarrow> tweet twitter_v2_response" where
  "seedResponse createdAt =
     \<lparr>data = makeTweet ''tweet_root'' ''Root tweet'' createdAt ''tweet_root'',
      includes = Some \<lparr>users = Some [mockUser], tweets = None\<rparr>\<rparr>"

definition rootRequest :: "string \<Rightarrow> string \<Rightarrow> url_params \<Rightarrow> unit + tweet twitter_v2_response" where
  "rootRequest createdAt endpoint params =
     (if endpoint = ''/tweets/tweet_root'' then Inr (seedResponse createdAt) else Inl ())"

definition pageOf :: "tweet list \<Rightarrow> string option \<Rightarrow> tweet twitter_v2_list_response" where
  "pageOf ts cursor =
     \<lparr>list_data = Some ts,
      list_includes = Some \<lparr>users = Some [mockUser], tweets = None\<rparr>,
      meta = Some \<lparr>result_count = int (length ts), newest_id = None, oldest_id = None,
                   next_token = cursor\<rparr>\<rparr>"

definition servePages ::
  "tweet twitter_v2_list_response list \<Rightarrow> nat \<Rightarrow> url_params
   \<Rightarrow> unit + tweet twitter_v2_list_response" where
  "servePages pages k params = (if k < length pages then Inr (pages ! k) else Inl ())"

text \<open>
  The transport of the client tests (client.test.ts): \<open>mockFetch\<close> answers the
  \<open>k\<close>-th call with the \<open>k\<close>-th configured response (the last one when the calls
  outnumber them). \<open>toyParse\<close> parses the bodies that the examples use and
  \<open>toyString\<close> is the text of an object in a template literal.
\<close>

definition toyParse :: "string \<Rightarrow> int json option" where
  \<open>toyParse body =
     (if body = ''{"detail":"Unauthorized"}'' then
        Some (JObject [(''detail'', JString ''Unauthorized'')])
      else if body = ''{"detail":"Too Many Requests"}'' then
        Some (JObject [(''detail'', JString ''Too Many Requests'')])
      else if body = ''{"errors":[{"message":"Not Found"}]}'' then
        Some (JObject [(''errors'', JArray [JObject [(''message'', JString ''Not Found'')]])])
      else if body = ''{}'' then Some (JObject [])
      else None)\<close>

definition toyString :: "int json \<Rightarrow> string" where
  "toyString j = ''[object Object]''"

definition mockFetch :: "(int \<times> string) list \<Rightarrow> nat \<Rightarrow> (unit, int json) transport_result" where
  "mockFetch responses callIndex =
     (let config = (if callIndex < length responses then responses ! callIndex else last responses)
      in Resolved \<lparr>resp_status = fst config, resp_text = Inr (snd config),
                   resp_json = (case toyParse (snd config) of None \<Rightarrow> Inl () | Some j \<Rightarrow> Inr j)\<rparr>)"

section \<open>Properties of the includes merge\<close>







section \<open>The sort and the pagination loop\<close>















lemma paginate_rule:
  fixes search :: "nat \<Rightarrow> url_params \<Rightarrow> 'e + tweet twitter_v2_list_response"
  assumes run: "paginate search cap cid fp st = Some (Inr st')"
    and init: "I st"
    and cont: "\<And>s page. I s \<Longrightarrow> fetched s < cap
        \<Longrightarrow> search (length (calls s)) (pageParams cap cid fp s) = Inr page
        \<Longrightarrow> \<not> stopAfter (absorbPage (pageParams cap cid fp s) s page) page
        \<Longrightarrow> I (absorbPage (pageParams cap cid fp s) s page)"
    and stop: "\<And>s page. I s \<Longrightarrow> fetched s < cap
        \<Longrightarrow> search (length (calls s)) (pageParams cap cid fp s) = Inr page
        \<Longrightarrow> stopAfter (absorbPage (pageParams cap cid fp s) s page) page
        \<Longrightarrow> Q (absorbPage (pageParams cap cid fp s) s page)"
    and exit: "\<And>s. I s \<Longrightarrow> \<not> fetched s < cap \<Longrightarrow> Q s"
  shows "Q st'"
proof -
  define P where "P \<equiv> \<lambda>search' cap' cid' fp' s (y :: 'e + loop_state).
       search' = search \<longrightarrow> cap' = cap \<longrightarrow> cid' = cid \<longrightarrow> fp' = fp \<longrightarrow> I s
         \<longrightarrow> (\<forall>r. y = Inr r \<longrightarrow> Q r)"
  have "P search cap cid fp st (Inr st')"
  proof (rule paginate.raw_induct [where P = P, OF _ run])
    fix pg search' cap' cid' fp' s y
    assume IH: "\<And>a b c d e z. pg a b c d e = Some z \<Longrightarrow> P a b c d e z"
      and body: "(if fetched s < cap' then
                    (case search' (length (calls s)) (pageParams cap' cid' fp' s) of
                       Inl e \<Rightarrow> Some (Inl e)
                     | Inr page \<Rightarrow>
                         (let st' = absorbPage (pageParams cap' cid' fp' s) s page
                          in if stopAfter st' page then Some (Inr st')
                             else pg search' cap' cid' fp' st'))
                  else Some (Inr s)) = Some y"
    show "P search' cap' cid' fp' s y"
      unfolding P_def
    proof (intro impI allI)
      fix r
      assume eqs: "search' = search" "cap' = cap" "cid' = cid" "fp' = fp"
        and inv: "I s" and y: "y = Inr r"
      show "Q r"
      proof (cases "fetched s < cap")
        case False
        with body eqs y have "r = s" by simp
        with exit [OF inv False] show ?thesis by simp
      next
        case True
        show ?thesis
        proof (cases "search (length (calls s)) (pageParams cap cid fp s)")
          case (Inl e)
          with body eqs y True show ?thesis by simp
        next
          case (Inr page)
          let ?s' = "absorbPage (pageParams cap cid fp s) s page"
          show ?thesis
          proof (cases "stopAfter ?s' page")
            case stp: True
            with body eqs y True Inr have "r = ?s'" by (simp add: Let_def)
            with stop [OF inv True Inr stp] show ?thesis by simp
          next
            case stp: False
            with body eqs y True Inr have "pg search cap cid fp ?s' = Some (Inr r)"
              by (simp add: Let_def)
            from IH [OF this] cont [OF inv True Inr stp] show ?thesis
              by (simp add: P_def)
          qed
        qed
      qed
    qed
  qed
  with init show ?thesis by (simp add: P_def)
qed


lemma absorbPage_triple:
  "(allTweets (absorbPage p s page), seenIds (absorbPage p s page), fetched (absorbPage p s page))
   = foldl addTweet (allTweets s, seenIds s, fetched s) (mergeTweetList page)"
proof (cases "list_data page")
  case None
  then show ?thesis by (simp add: absorbPage_def mergeTweetList_def)
next
  case (Some ds)
  then show ?thesis by (simp add: absorbPage_def split: prod.split)
qed

lemma absorbPage_calls:
  "calls (absorbPage p s page)
   = calls s @ [\<lparr>call_params = p, call_page = page, accumulated = allTweets (absorbPage p s page)\<rparr>]"
  by (simp add: absorbPage_def split: prod.split)

lemma absorbPage_nextToken:
  "nextToken (absorbPage p s page) = (case meta page of None \<Rightarrow> None | Some m \<Rightarrow> next_token m)"
  by (simp add: absorbPage_def split: prod.split)

lemma calls_okD:
  assumes "calls_ok search rootTweet cap s"
  shows "count_ok (allTweets s, seenIds s, fetched s)"
    and "allTweets s = insertionOrder rootTweet (calls s)"
    and "\<forall>c \<in> set (calls s). accumulated c \<noteq> []"
    and "\<forall>k < length (calls s). search k (call_params (calls s ! k)) = Inr (call_page (calls s ! k))"
    and "\<forall>c \<in> set (butlast (calls s)). \<not> halting cap c"
  using assms unfolding calls_ok_def by blast+

lemma addTweet_count_ok: "count_ok acc \<Longrightarrow> count_ok (addTweet acc tw)"
  by (cases acc) (auto simp: count_ok_def addTweet_def)

lemma foldl_addTweet_count_ok: "count_ok acc \<Longrightarrow> count_ok (foldl addTweet acc tws)"
  by (induction tws arbitrary: acc) (simp_all add: addTweet_count_ok)

lemma absorbPage_count_ok:
  assumes "count_ok (allTweets s, seenIds s, fetched s)"
  shows "count_ok (allTweets (absorbPage p s page), seenIds (absorbPage p s page),
                   fetched (absorbPage p s page))"
  using assms by (simp add: absorbPage_triple foldl_addTweet_count_ok)

lemma set_butlast_last: "xs \<noteq> [] \<Longrightarrow> set xs = insert (last xs) (set (butlast xs))"
  by (induction xs) auto

lemma halting_last:
  assumes "count_ok (allTweets s, seenIds s, fetched s)"
    and "fetched s < cap"
    and "accumulated c = allTweets s"
    and "truthy (case meta (call_page c) of None \<Rightarrow> None | Some m \<Rightarrow> next_token m)"
    and "\<not> (case list_data (call_page c) of None \<Rightarrow> True | Some ds \<Rightarrow> length ds = 0)"
  shows "\<not> halting cap c"
  using assms by (simp add: halting_def count_ok_def)

lemma paginate_calls_ok:
  fixes search :: "nat \<Rightarrow> url_params \<Rightarrow> 'e + tweet twitter_v2_list_response"
  assumes run: "paginate search cap cid fp st = Some (Inr st')"
    and init: "calls_ok search rootTweet cap st"
    and init_last: "calls st = []"
  shows "calls_ok search rootTweet cap st'"
proof -
  let ?open = "\<lambda>s. calls s \<noteq> [] \<longrightarrow>
        truthy (case meta (call_page (last (calls s))) of None \<Rightarrow> None | Some m \<Rightarrow> next_token m)
        \<and> \<not> (case list_data (call_page (last (calls s))) of None \<Rightarrow> True | Some ds \<Rightarrow> length ds = 0)"
  let ?I = "\<lambda>s. calls_ok search rootTweet cap s \<and> ?open s"
  have step: "calls_ok search rootTweet cap (absorbPage (pageParams cap cid fp s) s page)"
    if inv: "?I s" and lt: "fetched s < cap"
      and req: "search (length (calls s)) (pageParams cap cid fp s) = Inr page" for s page
  proof -
    let ?p = "pageParams cap cid fp s"
    let ?s' = "absorbPage ?p s page"
    let ?new = "\<lparr>call_params = ?p, call_page = page, accumulated = allTweets ?s'\<rparr>"
    from inv have ok: "calls_ok search rootTweet cap s" and opn: "?open s" by simp_all
    have cs: "calls ?s' = calls s @ [?new]" by (rule absorbPage_calls)
    from ok have cnt: "count_ok (allTweets s, seenIds s, fetched s)"
      by (rule calls_okD)
    then have cnt': "count_ok (allTweets ?s', seenIds ?s', fetched ?s')"
      by (rule absorbPage_count_ok)
    have ord: "allTweets ?s' = insertionOrder rootTweet (calls ?s')"
      by (simp add: cs insertionOrder_def)
    have ne: "\<forall>c \<in> set (calls ?s'). accumulated c \<noteq> []"
      using calls_okD(3) [OF ok] cnt' by (auto simp: cs count_ok_def)
    have answered: "\<forall>k < length (calls ?s').
        search k (call_params (calls ?s' ! k)) = Inr (call_page (calls ?s' ! k))"
    proof (intro allI impI)
      fix k assume "k < length (calls ?s')"
      then have "k < length (calls s) \<or> k = length (calls s)"
        by (auto simp: cs)
      then consider "k < length (calls s)" | "k = length (calls s)"
        by blast
      then show "search k (call_params (calls ?s' ! k)) = Inr (call_page (calls ?s' ! k))"
      proof cases
        case 1
        then show ?thesis using calls_okD(4) [OF ok] by (simp add: cs nth_append)
      next
        case 2
        then show ?thesis using req by (simp add: cs nth_append)
      qed
    qed
    have earlier: "\<forall>c \<in> set (calls s). \<not> halting cap c"
    proof (cases "calls s = []")
      case True
      then show ?thesis by simp
    next
      case False
      have "accumulated (last (calls s)) = allTweets s"
        using calls_okD(2) [OF ok] False by (simp add: insertionOrder_def)
      with cnt lt opn False have "\<not> halting cap (last (calls s))"
        by (intro halting_last) simp_all
      moreover have "\<forall>c \<in> set (butlast (calls s)). \<not> halting cap c"
        using ok by (rule calls_okD)
      ultimately show ?thesis
        using set_butlast_last [OF False] by auto
    qed
    have butlast: "\<forall>c \<in> set (butlast (calls ?s')). \<not> halting cap c"
      using earlier by (simp add: cs)
    show ?thesis
      unfolding calls_ok_def
      using cnt' ord ne answered butlast by (intro conjI)
  qed
  show ?thesis
  proof (rule paginate_rule [where I = ?I and Q = "calls_ok search rootTweet cap", OF run])
    show "?I st" using init init_last by simp
  next
    fix s page
    assume a: "?I s" "fetched s < cap"
      "search (length (calls s)) (pageParams cap cid fp s) = Inr page"
      "\<not> stopAfter (absorbPage (pageParams cap cid fp s) s page) page"
    have "calls_ok search rootTweet cap (absorbPage (pageParams cap cid fp s) s page)"
      using a(1-3) by (rule step)
    moreover have "?open (absorbPage (pageParams cap cid fp s) s page)"
      using a(4) by (simp add: stopAfter_def absorbPage_calls absorbPage_nextToken)
    ultimately show "?I (absorbPage (pageParams cap cid fp s) s page)" by simp
  next
    fix s page
    assume a: "?I s" "fetched s < cap"
      "search (length (calls s)) (pageParams cap cid fp s) = Inr page"
    then show "calls_ok search rootTweet cap (absorbPage (pageParams cap cid fp s) s page)"
      by (rule step)
  next
    fix s assume "?I s"
    then show "calls_ok search rootTweet cap s" by simp
  qed
qed

lemma buildThread_calls_Inr:
  assumes "buildThread_calls root search g now tweetId maxResults fp = Some (Inr (r, cs))"
  obtains rr st where
    "root (''/tweets/'' @ tweetId) (rootParams fp) = Inr rr"
    "paginate search (min maxResults MAX_THREAD_TWEETS) (conversationIdOf (data rr)) fp
       \<lparr>allTweets = [mergeSingleTweet rr], seenIds = {tweetId}, nextToken = None,
        fetched = 0, calls = []\<rparr> = Some (Inr st)"
    "r = \<lparr>thread_tweets = array_sort (compareCreatedAt g) (allTweets st),
          ageWarning = checkAge g now (data rr)\<rparr>"
    "cs = calls st"
  using assms
  by (auto simp: buildThread_calls_def Let_def split: sum.splits option.splits)

lemma buildThread_Inr:
  assumes "buildThread root search g now tweetId maxResults fp = Some (Inr r)"
  obtains cs where
    "buildThread_calls root search g now tweetId maxResults fp = Some (Inr (r, cs))"
proof -
  from assms obtain z where z: "buildThread_calls root search g now tweetId maxResults fp = Some z"
    and m: "map_sum (\<lambda>e. e) fst z = Inr r"
    by (auto simp: buildThread_def)
  from m obtain cs where "z = Inr (r, cs)"
    by (cases z) auto
  with z that show ?thesis by simp
qed

lemma paginate_calls_ok_initial:
  fixes search :: "nat \<Rightarrow> url_params \<Rightarrow> 'e + tweet twitter_v2_list_response"
  assumes "paginate search cap cid fp
       \<lparr>allTweets = [rootTweet], seenIds = seen, nextToken = None, fetched = 0, calls = []\<rparr>
     = Some (Inr st)"
  shows "calls_ok search rootTweet cap st"
  using assms
  by (rule paginate_calls_ok) (simp_all add: calls_ok_def count_ok_def insertionOrder_def)











lemma paginate_exit: "\<not> fetched st < cap \<Longrightarrow> paginate search cap cid fp st = Some (Inr st)"
  by (subst paginate.simps) simp

lemma checkAge_timed:
  assumes "createdTime getTime tw = Some t"
  shows "checkAge getTime now tw \<noteq> None \<longleftrightarrow> now - t > 7 * 24 * 3600 * 1000"
  using assms
  by (auto simp: checkAge_def createdTime_def SEVEN_DAYS_MS_def Let_def split: if_splits)

lemma checkAge_absent: "created_at tw = None \<Longrightarrow> checkAge getTime now tw = None"
  by (simp add: checkAge_def truthy_def)

lemma buildThread_calls_now:
  "map_option (map_sum (\<lambda>e. e) (\<lambda>rc. (thread_tweets (fst rc), snd rc)))
     (buildThread_calls root search getTime now tweetId maxResults fp)
   = map_option (map_sum (\<lambda>e. e) (\<lambda>rc. (thread_tweets (fst rc), snd rc)))
     (buildThread_calls root search getTime now' tweetId maxResults fp)"
  by (simp add: buildThread_calls_def Let_def split: sum.splits option.splits)



lemma errorDetail_cases:
  "(JSON_parse body = None \<longrightarrow> errorDetail JSON_parse String_of body = body)
   \<and> (JSON_parse body = Some parsed \<and> optProp (Some parsed) ''detail'' = Some v \<and> v \<noteq> JNull
        \<longrightarrow> errorDetail JSON_parse String_of body = template String_of (Some v))
   \<and> (JSON_parse body = Some parsed \<and> nullish (optProp (Some parsed) ''detail'')
        \<and> optProp (optFirst (optProp (Some parsed) ''errors'')) ''message'' = Some w \<and> w \<noteq> JNull
        \<longrightarrow> errorDetail JSON_parse String_of body = template String_of (Some w))
   \<and> (JSON_parse body = Some parsed \<and> nullish (optProp (Some parsed) ''detail'')
        \<and> nullish (optProp (optFirst (optProp (Some parsed) ''errors'')) ''message'')
        \<longrightarrow> errorDetail JSON_parse String_of body = body)
   \<and> template String_of (Some (JString d)) = d"
  by (auto simp: errorDetail_def coalesce_def nullish_def template_def)

lemma retry_from_policy:
  "retry_from fn retryable left k = (res, n) \<Longrightarrow>
     k < n \<and> n \<le> k + left + 1 \<and> res = fn (n - 1)
     \<and> (\<forall>j. k \<le> j \<and> j < n - 1 \<longrightarrow> (\<exists>e. fn j = Inl e \<and> retryable e))
     \<and> (n < k + left + 1 \<longrightarrow> (\<forall>e. res = Inl e \<longrightarrow> \<not> retryable e))"
proof (induction left arbitrary: k)
  case 0
  then show ?case by auto
next
  case (Suc left)
  show ?case
  proof (cases "fn k")
    case (Inr v)
    with Suc.prems show ?thesis by auto
  next
    case (Inl e)
    show ?thesis
    proof (cases "retryable e")
      case False
      with Inl Suc.prems show ?thesis by auto
    next
      case True
      with Inl Suc.prems have "retry_from fn retryable left (Suc k) = (res, n)" by simp
      from Suc.IH [OF this]
      have ih: "Suc k < n" "n \<le> Suc k + left + 1" "res = fn (n - 1)"
        "\<forall>j. Suc k \<le> j \<and> j < n - 1 \<longrightarrow> (\<exists>e. fn j = Inl e \<and> retryable e)"
        "n < Suc k + left + 1 \<longrightarrow> (\<forall>e. res = Inl e \<longrightarrow> \<not> retryable e)"
        by simp_all
      have "\<forall>j. k \<le> j \<and> j < n - 1 \<longrightarrow> (\<exists>e. fn j = Inl e \<and> retryable e)"
      proof (intro allI impI)
        fix j assume j: "k \<le> j \<and> j < n - 1"
        show "\<exists>e. fn j = Inl e \<and> retryable e"
        proof (cases "j = k")
          case True
          with Inl \<open>retryable e\<close> show ?thesis by simp
        next
          case False
          with j have "Suc k \<le> j \<and> j < n - 1" by simp
          with ih(4) show ?thesis by blast
        qed
      qed
      with ih show ?thesis by simp
    qed
  qed
qed

text \<open>
  The loop returns whenever some request rejects or brings a page with a halting
  condition: in particular for every finite list of pages.
\<close>

lemma paginate_returns:
  fixes search :: "nat \<Rightarrow> url_params \<Rightarrow> 'e + tweet twitter_v2_list_response"
  assumes last: "\<And>params page. search N params = Inr page \<Longrightarrow>
        \<not> truthy (case meta page of None \<Rightarrow> None | Some m \<Rightarrow> next_token m)
        \<or> (case list_data page of None \<Rightarrow> True | Some ds \<Rightarrow> length ds = 0)"
    and "length (calls st) \<le> N"
  shows "paginate search cap cid fp st \<noteq> None"
  using assms(2)
proof (induction "N - length (calls st)" arbitrary: st)
  case 0
  then have here: "length (calls st) = N" by simp
  show ?case
  proof (cases "fetched st < cap")
    case False
    then show ?thesis by (simp add: paginate_exit)
  next
    case True
    show ?thesis
    proof (cases "search (length (calls st)) (pageParams cap cid fp st)")
      case (Inl e)
      with True show ?thesis by (subst paginate.simps) simp
    next
      case (Inr page)
      with last here have "stopAfter (absorbPage (pageParams cap cid fp st) st page) page"
        by (simp add: stopAfter_def absorbPage_nextToken)
      with True Inr show ?thesis by (subst paginate.simps) simp
    qed
  qed
next
  case (Suc d)
  show ?case
  proof (cases "fetched st < cap")
    case False
    then show ?thesis by (simp add: paginate_exit)
  next
    case True
    show ?thesis
    proof (cases "search (length (calls st)) (pageParams cap cid fp st)")
      case (Inl e)
      with True show ?thesis by (subst paginate.simps) simp
    next
      case (Inr page)
      let ?st' = "absorbPage (pageParams cap cid fp st) st page"
      show ?thesis
      proof (cases "stopAfter ?st' page")
        case stp: True
        with True Inr show ?thesis by (subst paginate.simps) simp
      next
        case stp: False
        have len: "length (calls ?st') = Suc (length (calls st))"
          by (simp add: absorbPage_calls)
        with Suc.hyps(2) have "d = N - length (calls ?st')" by simp
        moreover from Suc.hyps(2) len have "length (calls ?st') \<le> N" by simp
        ultimately have "paginate search cap cid fp ?st' \<noteq> None"
          by (rule Suc.hyps(1))
        with True Inr stp show ?thesis by (subst paginate.simps) simp
      qed
    qed
  qed
qed

lemma buildThread_returns:
  "buildThread root (servePages pages) getTime now tweetId maxResults fieldParams \<noteq> None"
proof (cases "root (''/tweets/'' @ tweetId) (rootParams fieldParams)")
  case (Inl e)
  then show ?thesis
    by (simp add: buildThread_def buildThread_calls_def)
next
  case (Inr rr)
  have "paginate (servePages pages) (min maxResults MAX_THREAD_TWEETS)
          (conversationIdOf (data rr)) fieldParams
          \<lparr>allTweets = [mergeSingleTweet rr], seenIds = {tweetId}, nextToken = None,
           fetched = 0, calls = []\<rparr> \<noteq> None"
    by (rule paginate_returns [where N = "length pages"]) (simp_all add: servePages_def)
  then obtain y where "paginate (servePages pages) (min maxResults MAX_THREAD_TWEETS)
          (conversationIdOf (data rr)) fieldParams
          \<lparr>allTweets = [mergeSingleTweet rr], seenIds = {tweetId}, nextToken = None,
           fetched = 0, calls = []\<rparr> = Some y"
    by blast
  with Inr show ?thesis
    by (cases y) (simp_all add: buildThread_def buildThread_calls_def Let_def)
qed

section \<open>Properties of the specification\<close>

text \<open>
  C1. For every status code and raw body, the classified failure carries that status;
  its category is \<open>transient\<close> exactly for 429 and for 500 and above,
  \<open>configuration\<close> exactly for 401 and 403, and \<open>permanent\<close> for 404 and every
  other status. Its message is the detail of the body between a label and an ending
  that depend on the status alone; the detail is the body's \<open>detail\<close> field when the
  field is there, else the \<open>message\<close> of the first structured error, else the raw
  body, and the raw body also when the body is no JSON.
\<close>

theorem parseTwitterError_classifies:
  "status (parseTwitterError JSON_parse String_of st body) = st
   \<and> (category (parseTwitterError JSON_parse String_of st body) = transient
        \<longleftrightarrow> st = 429 \<or> st \<ge> 500)
   \<and> (category (parseTwitterError JSON_parse String_of st body) = configuration
        \<longleftrightarrow> st = 401 \<or> st = 403)
   \<and> (category (parseTwitterError JSON_parse String_of st body) = permanent
        \<longleftrightarrow> st \<noteq> 429 \<and> st < 500 \<and> st \<noteq> 401 \<and> st \<noteq> 403)
   \<and> (\<exists>label rest. \<forall>b. message (parseTwitterError JSON_parse String_of st b)
                         = label @ errorDetail JSON_parse String_of b @ rest)
   \<and> (JSON_parse body = None \<longrightarrow> errorDetail JSON_parse String_of body = body)
   \<and> (JSON_parse body = Some parsed \<and> optProp (Some parsed) ''detail'' = Some v \<and> v \<noteq> JNull
        \<longrightarrow> errorDetail JSON_parse String_of body = template String_of (Some v))
   \<and> (JSON_parse body = Some parsed \<and> nullish (optProp (Some parsed) ''detail'')
        \<and> optProp (optFirst (optProp (Some parsed) ''errors'')) ''message'' = Some w \<and> w \<noteq> JNull
        \<longrightarrow> errorDetail JSON_parse String_of body = template String_of (Some w))
   \<and> (JSON_parse body = Some parsed \<and> nullish (optProp (Some parsed) ''detail'')
        \<and> nullish (optProp (optFirst (optProp (Some parsed) ''errors'')) ''message'')
        \<longrightarrow> errorDetail JSON_parse String_of body = body)
   \<and> template String_of (Some (JString d)) = d"
proof -
  have 1: "status (parseTwitterError JSON_parse String_of st body) = st"
    by (simp add: parseTwitterError_def Let_def)
  have 2: "category (parseTwitterError JSON_parse String_of st body) = transient
        \<longleftrightarrow> st = 429 \<or> st \<ge> 500"
    by (simp add: parseTwitterError_def Let_def)
  have 3: "category (parseTwitterError JSON_parse String_of st body) = configuration
        \<longleftrightarrow> st = 401 \<or> st = 403"
    by (simp add: parseTwitterError_def Let_def)
  have 4: "category (parseTwitterError JSON_parse String_of st body) = permanent
        \<longleftrightarrow> st \<noteq> 429 \<and> st < 500 \<and> st \<noteq> 401 \<and> st \<noteq> 403"
    by (simp add: parseTwitterError_def Let_def)
  have 5: "\<exists>label rest. \<forall>b. message (parseTwitterError JSON_parse String_of st b)
                         = label @ errorDetail JSON_parse String_of b @ rest"
  proof -
    let ?label = "if st = 429 then ''Rate limited: '' else if st = 401 then ''Auth failed: ''
        else if st = 403 then ''Forbidden: '' else if st = 404 then ''Not found: ''
        else if st \<ge> 500 then ''Server error '' @ String_of_int st @ '': ''
        else ''API error '' @ String_of_int st @ '': ''"
    let ?rest = "if st = 403 then '' (check API tier)'' else []"
    have "\<forall>b. message (parseTwitterError JSON_parse String_of st b)
               = ?label @ errorDetail JSON_parse String_of b @ ?rest"
      by (simp add: parseTwitterError_def Let_def)
    then show ?thesis by blast
  qed
  from 1 2 3 4 5 errorDetail_cases [of JSON_parse body String_of parsed v w d]
  show ?thesis by blast
qed

text \<open>
  Four bodies: one that is no JSON, one with a \<open>detail\<close> field, one with a structured
  error only, and an empty object.
\<close>

theorem parseTwitterError_classifies_witness:
  \<open>errorDetail toyParse toyString ''upstream connect error'' = ''upstream connect error''
   \<and> errorDetail toyParse toyString ''{"detail":"Unauthorized"}'' = ''Unauthorized''
   \<and> errorDetail toyParse toyString ''{"errors":[{"message":"Not Found"}]}'' = ''Not Found''
   \<and> errorDetail toyParse toyString ''{}'' = ''{}''
   \<and> category (parseTwitterError toyParse toyString 503 ''upstream connect error'') = transient
   \<and> category (parseTwitterError toyParse toyString 401 ''{"detail":"Unauthorized"}'') = configuration
   \<and> category (parseTwitterError toyParse toyString 404 ''{"errors":[{"message":"Not Found"}]}'') = permanent\<close>
proof -
  have a: \<open>toyParse ''upstream connect error'' = None\<close>
    by (simp add: toyParse_def)
  have b: \<open>toyParse ''{"detail":"Unauthorized"}'' = Some (JObject [(''detail'', JString ''Unauthorized'')])
      \<and> optProp (Some (JObject [(''detail'', JString ''Unauthorized'')] :: int json)) ''detail''
          = Some (JString ''Unauthorized'')
      \<and> JString ''Unauthorized'' \<noteq> (JNull :: int json)\<close>
    by (simp add: toyParse_def optProp_def)
  have c: \<open>toyParse ''{"errors":[{"message":"Not Found"}]}''
        = Some (JObject [(''errors'', JArray [JObject [(''message'', JString ''Not Found'')]])])
      \<and> nullish (optProp (Some (JObject [(''errors'', JArray [JObject [(''message'', JString ''Not Found'')]])] :: int json)) ''detail'')
      \<and> optProp (optFirst (optProp (Some (JObject [(''errors'', JArray [JObject [(''message'', JString ''Not Found'')]])] :: int json)) ''errors'')) ''message''
          = Some (JString ''Not Found'')
      \<and> JString ''Not Found'' \<noteq> (JNull :: int json)\<close>
    by (simp add: toyParse_def optProp_def optFirst_def nullish_def)
  have d: \<open>toyParse ''{}'' = Some (JObject [])
      \<and> nullish (optProp (Some (JObject [] :: int json)) ''detail'')
      \<and> nullish (optProp (optFirst (optProp (Some (JObject [] :: int json)) ''errors'')) ''message'')\<close>
    by (simp add: toyParse_def optProp_def optFirst_def nullish_def)
  from a parseTwitterError_classifies [of toyParse toyString 503 \<open>''upstream connect error''\<close>
      JNull JNull JNull "[]"]
  have 1: \<open>errorDetail toyParse toyString ''upstream connect error'' = ''upstream connect error''
     \<and> category (parseTwitterError toyParse toyString 503 ''upstream connect error'') = transient\<close>
    by simp
  from b parseTwitterError_classifies [of toyParse toyString 401 \<open>''{"detail":"Unauthorized"}''\<close>
      "JObject [(''detail'', JString ''Unauthorized'')]" "JString ''Unauthorized''" JNull "''Unauthorized''"]
  have 2: \<open>errorDetail toyParse toyString ''{"detail":"Unauthorized"}'' = ''Unauthorized''
     \<and> category (parseTwitterError toyParse toyString 401 ''{"detail":"Unauthorized"}'') = configuration\<close>
    by simp
  from c parseTwitterError_classifies [of toyParse toyString 404 \<open>''{"errors":[{"message":"Not Found"}]}''\<close>
      "JObject [(''errors'', JArray [JObject [(''message'', JString ''Not Found'')]])]" JNull
      "JString ''Not Found''" "''Not Found''"]
  have 3: \<open>errorDetail toyParse toyString ''{"errors":[{"message":"Not Found"}]}'' = ''Not Found''
     \<and> category (parseTwitterError toyParse toyString 404 ''{"errors":[{"message":"Not Found"}]}'') = permanent\<close>
    by simp
  from d parseTwitterError_classifies [of toyParse toyString 400 \<open>''{}''\<close> "JObject []"
      JNull JNull "[]"]
  have 4: \<open>errorDetail toyParse toyString ''{}'' = ''{}''\<close>
    by simp
  from 1 2 3 4 show ?thesis by blast
qed

text \<open>
  C2. A request makes between one and three attempts and returns the outcome of the
  last attempt made. Every attempt before the last failed with a transient failure (a
  timeout, a classified failure of category \<open>transient\<close>, or a failure that the
  generic category function calls transient), so a success or a failure of category
  \<open>configuration\<close> or \<open>permanent\<close> ends the request at once; a request that stops
  before the third attempt ends with a success or with a failure that is not
  transient, and after three attempts the third failure is the one raised.
\<close>

theorem request_retry_policy:
  assumes "request_attempts getErrorCategory JSON_parse String_of transport = (res, n)"
  shows "1 \<le> n \<and> n \<le> 3
       \<and> res = attempt JSON_parse String_of (transport (n - 1))
       \<and> (\<forall>k < n - 1. \<exists>e. attempt JSON_parse String_of (transport k) = Inl e
                            \<and> shouldRetry getErrorCategory e)
       \<and> (n < 3 \<longrightarrow> (\<forall>e. res = Inl e \<longrightarrow> \<not> shouldRetry getErrorCategory e))
       \<and> (\<forall>e. shouldRetry getErrorCategory e \<longleftrightarrow>
                 e = TimeoutError
                 \<or> (\<exists>x. e = TwitterApiError x \<and> category x = transient)
                 \<or> (\<exists>x. e = OtherError x \<and> getErrorCategory x = ''transient''))"
proof -
  from assms have "retry_from (\<lambda>k. attempt JSON_parse String_of (transport k))
      (shouldRetry getErrorCategory) 2 0 = (res, n)"
    by (simp add: request_attempts_def retry_def numeral_2_eq_2)
  from retry_from_policy [OF this]
  have a: "1 \<le> n \<and> n \<le> 3
       \<and> res = attempt JSON_parse String_of (transport (n - 1))
       \<and> (\<forall>k < n - 1. \<exists>e. attempt JSON_parse String_of (transport k) = Inl e
                            \<and> shouldRetry getErrorCategory e)
       \<and> (n < 3 \<longrightarrow> (\<forall>e. res = Inl e \<longrightarrow> \<not> shouldRetry getErrorCategory e))"
    by auto
  have b: "\<forall>e. shouldRetry getErrorCategory e \<longleftrightarrow>
                 e = TimeoutError
                 \<or> (\<exists>x. e = TwitterApiError x \<and> category x = transient)
                 \<or> (\<exists>x. e = OtherError x \<and> getErrorCategory x = ''transient'')"
  proof
    fix e show "shouldRetry getErrorCategory e \<longleftrightarrow>
                 e = TimeoutError
                 \<or> (\<exists>x. e = TwitterApiError x \<and> category x = transient)
                 \<or> (\<exists>x. e = OtherError x \<and> getErrorCategory x = ''transient'')"
      by (cases e) (simp_all add: shouldRetry_def)
  qed
  from a b show ?thesis by blast
qed

text \<open>
  Two runs of the client tests: two rate-limited answers and then a success take three
  attempts; an answer 401 ends the request after one attempt.
\<close>

theorem request_retry_policy_witness:
  \<open>request_attempts (\<lambda>u::unit. ''unknown'') toyParse toyString
       (mockFetch [(429, ''{"detail":"Too Many Requests"}''),
                   (429, ''{"detail":"Too Many Requests"}''), (200, ''{}'')])
     = (Inr (JObject []), 3)
   \<and> list_all (\<lambda>k. case attempt toyParse toyString
                          (mockFetch [(429, ''{"detail":"Too Many Requests"}''),
                                      (429, ''{"detail":"Too Many Requests"}''),
                                      (200, ''{}'')] k) of
                      Inl e \<Rightarrow> shouldRetry (\<lambda>u::unit. ''unknown'') e
                    | Inr v \<Rightarrow> False) [0, 1]
   \<and> snd (request_attempts (\<lambda>u::unit. ''unknown'') toyParse toyString
            (mockFetch [(401, ''{"detail":"Unauthorized"}'')])) = 1
   \<and> (case fst (request_attempts (\<lambda>u::unit. ''unknown'') toyParse toyString
                  (mockFetch [(401, ''{"detail":"Unauthorized"}'')])) of
         Inl e \<Rightarrow> \<not> shouldRetry (\<lambda>u::unit. ''unknown'') e
       | Inr v \<Rightarrow> False)\<close>
proof -
  let ?gc = "\<lambda>u::unit. ''unknown''"
  let ?A = \<open>mockFetch [(429, ''{"detail":"Too Many Requests"}''),
                      (429, ''{"detail":"Too Many Requests"}''), (200, ''{}'')]\<close>
  let ?B = \<open>mockFetch [(401, ''{"detail":"Unauthorized"}'')]\<close>
  have runA: "request_attempts ?gc toyParse toyString ?A = (Inr (JObject []), 3)"
    by code_simp
  have runB: "request_attempts ?gc toyParse toyString ?B
      = (fst (request_attempts ?gc toyParse toyString ?B), 1)"
    by code_simp
  have "isl (fst (request_attempts ?gc toyParse toyString ?B))"
    by code_simp
  then have failedB: "\<exists>e. fst (request_attempts ?gc toyParse toyString ?B) = Inl e"
    by (simp add: isl_def)
  have read: "(case x of Inl e \<Rightarrow> P e | Inr v \<Rightarrow> False)" if "\<exists>e. x = Inl e \<and> P e"
    for x :: "unit failure + int json" and P
    using that by auto
  from request_retry_policy [OF runA]
  have earlier: "\<forall>k < 3 - 1. \<exists>e. attempt toyParse toyString (?A k) = Inl e \<and> shouldRetry ?gc e"
    by blast
  have "\<exists>e. attempt toyParse toyString (?A 0) = Inl e \<and> shouldRetry ?gc e"
    using earlier by simp
  moreover have "\<exists>e. attempt toyParse toyString (?A 1) = Inl e \<and> shouldRetry ?gc e"
    using earlier by simp
  ultimately have a: "list_all (\<lambda>k. case attempt toyParse toyString (?A k) of
                               Inl e \<Rightarrow> shouldRetry ?gc e | Inr v \<Rightarrow> False) [0, 1]"
    by (simp add: read)
  from request_retry_policy [OF runB]
  have "(1::nat) < 3 \<longrightarrow>
      (\<forall>e. fst (request_attempts ?gc toyParse toyString ?B) = Inl e \<longrightarrow> \<not> shouldRetry ?gc e)"
    by blast
  with failedB
  have "\<exists>e. fst (request_attempts ?gc toyParse toyString ?B) = Inl e \<and> \<not> shouldRetry ?gc e"
    by auto
  then have b: "case fst (request_attempts ?gc toyParse toyString ?B) of
      Inl e \<Rightarrow> \<not> shouldRetry ?gc e | Inr v \<Rightarrow> False"
    by (rule read)
  have c: "snd (request_attempts ?gc toyParse toyString ?B) = 1"
    using runB by (metis snd_conv)
  from runA a b c show ?thesis by blast
qed






text \<open>
  C5. The search requests of a run are the answered requests of the ghost list, in
  order. No request but the last meets a halting condition: after each earlier one
  the accumulated items beyond the seed were below the cap \<open>min maxResults 200\<close>, the
  page carried a cursor and the page carried items. With a cap of zero or less no
  request is issued, and with \<open>maxResults = 1\<close> every request but the last left the
  seed alone in the accumulator.
\<close>

theorem buildThread_halts:
  assumes "buildThread_calls root search getTime now tweetId maxResults fp = Some (Inr (r, cs))"
  shows "(\<forall>c \<in> set (butlast cs). \<not> halting (min maxResults 200) c)
       \<and> (\<forall>k < length cs. search k (call_params (cs ! k)) = Inr (call_page (cs ! k)))
       \<and> (min maxResults 200 \<le> 0 \<longrightarrow> cs = [])
       \<and> (maxResults = 1 \<longrightarrow> (\<forall>c \<in> set (butlast cs). length (accumulated c) = 1))"
proof -
  let ?cap = "min maxResults 200"
  from assms obtain rr st where
    rr: "root (''/tweets/'' @ tweetId) (rootParams fp) = Inr rr"
    and run: "paginate search (min maxResults MAX_THREAD_TWEETS) (conversationIdOf (data rr)) fp
       \<lparr>allTweets = [mergeSingleTweet rr], seenIds = {tweetId}, nextToken = None,
        fetched = 0, calls = []\<rparr> = Some (Inr st)"
    and r: "r = \<lparr>thread_tweets = array_sort (compareCreatedAt getTime) (allTweets st),
          ageWarning = checkAge getTime now (data rr)\<rparr>"
    and cs: "cs = calls st"
    by (rule buildThread_calls_Inr)
  have cap: "min maxResults MAX_THREAD_TWEETS = ?cap" by (simp add: MAX_THREAD_TWEETS_def)
  have ok: "calls_ok search (mergeSingleTweet rr) ?cap st"
    using run unfolding cap by (rule paginate_calls_ok_initial)
  have 1: "\<forall>c \<in> set (butlast cs). \<not> halting ?cap c"
    using calls_okD(5) [OF ok] by (simp add: cs)
  have 2: "\<forall>k < length cs. search k (call_params (cs ! k)) = Inr (call_page (cs ! k))"
    using calls_okD(4) [OF ok] by (simp add: cs)
  have 3: "?cap \<le> 0 \<longrightarrow> cs = []"
  proof
    assume "?cap \<le> 0"
    then have "paginate search ?cap (conversationIdOf (data rr)) fp
       \<lparr>allTweets = [mergeSingleTweet rr], seenIds = {tweetId}, nextToken = None,
        fetched = 0, calls = []\<rparr>
      = Some (Inr \<lparr>allTweets = [mergeSingleTweet rr], seenIds = {tweetId}, nextToken = None,
        fetched = 0, calls = []\<rparr>)"
      by (intro paginate_exit) simp
    with run cap have "st = \<lparr>allTweets = [mergeSingleTweet rr], seenIds = {tweetId},
        nextToken = None, fetched = 0, calls = []\<rparr>"
      by simp
    then have "calls st = []" by simp
    then show "cs = []" by (simp add: cs)
  qed
  have 4: "maxResults = 1 \<longrightarrow> (\<forall>c \<in> set (butlast cs). length (accumulated c) = 1)"
  proof (intro impI ballI)
    fix c assume one: "maxResults = 1" and c: "c \<in> set (butlast cs)"
    from c 1 have "\<not> halting ?cap c" by blast
    with one have "int (length (accumulated c)) - 1 < 1"
      by (simp add: halting_def)
    moreover have "accumulated c \<noteq> []"
      using calls_okD(3) [OF ok] c by (auto simp: cs dest: in_set_butlastD)
    ultimately show "length (accumulated c) = 1"
      by (cases "accumulated c") auto
  qed
  from 1 2 3 4 show ?thesis by (intro conjI)
qed

text \<open>
  With \<open>maxResults = 1\<close>, a first page that only repeats the seed and carries a cursor
  is followed by a second request, which ends the run; with \<open>maxResults = 0\<close> no
  request is made.
\<close>

theorem buildThread_halts_witness:
  "length (snd (projr (the
      (buildThread_calls (rootRequest ''1'')
         (servePages [pageOf [makeTweet ''tweet_root'' ''Root tweet'' ''1'' ''tweet_root'']
                        (Some ''page2''),
                      pageOf [makeTweet ''r1'' ''Reply 1'' ''5'' ''tweet_root''] None])
         digitTime 9 ''tweet_root'' 1 testFields)))) = 2
   \<and> list_all (\<lambda>c. \<not> halting 1 c \<and> length (accumulated c) = 1)
       (butlast (snd (projr (the
         (buildThread_calls (rootRequest ''1'')
            (servePages [pageOf [makeTweet ''tweet_root'' ''Root tweet'' ''1'' ''tweet_root'']
                           (Some ''page2''),
                         pageOf [makeTweet ''r1'' ''Reply 1'' ''5'' ''tweet_root''] None])
            digitTime 9 ''tweet_root'' 1 testFields)))))
   \<and> snd (projr (the
      (buildThread_calls (rootRequest ''1'')
         (servePages [pageOf [makeTweet ''r1'' ''Reply 1'' ''5'' ''tweet_root''] None])
         digitTime 9 ''tweet_root'' 0 testFields))) = []"
proof -
  let ?run1 = "buildThread_calls (rootRequest ''1'')
         (servePages [pageOf [makeTweet ''tweet_root'' ''Root tweet'' ''1'' ''tweet_root'']
                        (Some ''page2''),
                      pageOf [makeTweet ''r1'' ''Reply 1'' ''5'' ''tweet_root''] None])
         digitTime 9 ''tweet_root'' 1 testFields"
  let ?run0 = "buildThread_calls (rootRequest ''1'')
         (servePages [pageOf [makeTweet ''r1'' ''Reply 1'' ''5'' ''tweet_root''] None])
         digitTime 9 ''tweet_root'' 0 testFields"
  have run1: "?run1 = Some (Inr (fst (projr (the ?run1)), snd (projr (the ?run1))))"
    by code_simp
  have run0: "?run0 = Some (Inr (fst (projr (the ?run0)), snd (projr (the ?run0))))"
    by code_simp
  have len: "length (snd (projr (the ?run1))) = 2" by code_simp
  from buildThread_halts [OF run1]
  have a: "list_all (\<lambda>c. \<not> halting 1 c \<and> length (accumulated c) = 1)
             (butlast (snd (projr (the ?run1))))"
    by (simp add: list_all_iff)
  from buildThread_halts [OF run0]
  have b: "snd (projr (the ?run0)) = []"
    by simp
  from len a b show ?thesis by blast
qed

text \<open>
  C6. When the seed has a creation time \<open>t\<close>, the result carries the advisory if and
  only if \<open>now - t\<close> exceeds 7 * 24 * 3600 * 1000 milliseconds; a seed without
  \<open>created_at\<close> never carries it; and the returned items are the same at every
  evaluation time, so that the advisory neither blocks nor changes the rest.
\<close>

theorem buildThread_staleness:
  assumes "buildThread root search getTime now tweetId maxResults fp = Some (Inr r)"
    and "root (''/tweets/'' @ tweetId) (rootParams fp) = Inr rootResponse"
  shows "(\<forall>t. createdTime getTime (data rootResponse) = Some t
             \<longrightarrow> (ageWarning r \<noteq> None \<longleftrightarrow> now - t > 7 * 24 * 3600 * 1000))
       \<and> (created_at (data rootResponse) = None \<longrightarrow> ageWarning r = None)
       \<and> (\<forall>now'. map_option (map_sum (\<lambda>e. e) thread_tweets)
                    (buildThread root search getTime now' tweetId maxResults fp)
                  = Some (Inr (thread_tweets r)))"
proof -
  from assms(1) obtain cs where
    calls: "buildThread_calls root search getTime now tweetId maxResults fp = Some (Inr (r, cs))"
    by (rule buildThread_Inr)
  then obtain rr st where
    rr: "root (''/tweets/'' @ tweetId) (rootParams fp) = Inr rr"
    and run: "paginate search (min maxResults MAX_THREAD_TWEETS) (conversationIdOf (data rr)) fp
       \<lparr>allTweets = [mergeSingleTweet rr], seenIds = {tweetId}, nextToken = None,
        fetched = 0, calls = []\<rparr> = Some (Inr st)"
    and r: "r = \<lparr>thread_tweets = array_sort (compareCreatedAt getTime) (allTweets st),
          ageWarning = checkAge getTime now (data rr)\<rparr>"
    and cs: "cs = calls st"
    by (rule buildThread_calls_Inr)
  from rr assms(2) have same: "rr = rootResponse" by simp
  have w: "ageWarning r = checkAge getTime now (data rootResponse)"
    using r same by simp
  have 1: "\<forall>t. createdTime getTime (data rootResponse) = Some t
             \<longrightarrow> (ageWarning r \<noteq> None \<longleftrightarrow> now - t > 7 * 24 * 3600 * 1000)"
    unfolding w using checkAge_timed by blast
  have 2: "created_at (data rootResponse) = None \<longrightarrow> ageWarning r = None"
    unfolding w using checkAge_absent by blast
  have 3: "\<forall>now'. map_option (map_sum (\<lambda>e. e) thread_tweets)
                    (buildThread root search getTime now' tweetId maxResults fp)
                  = Some (Inr (thread_tweets r))"
  proof
    fix now'
    have "map_option (map_sum (\<lambda>e. e) (\<lambda>rc. (thread_tweets (fst rc), snd rc)))
            (buildThread_calls root search getTime now' tweetId maxResults fp)
          = Some (Inr (thread_tweets r, cs))"
      using buildThread_calls_now [of root search getTime now' tweetId maxResults fp now] calls
      by simp
    then obtain z where
      z: "buildThread_calls root search getTime now' tweetId maxResults fp = Some z"
      and m: "map_sum (\<lambda>e. e) (\<lambda>rc. (thread_tweets (fst rc), snd rc)) z
              = Inr (thread_tweets r, cs)"
      by auto
    from m obtain rc where "z = Inr rc" and "thread_tweets (fst rc) = thread_tweets r"
      by (cases z) auto
    with z show "map_option (map_sum (\<lambda>e. e) thread_tweets)
                 (buildThread root search getTime now' tweetId maxResults fp)
               = Some (Inr (thread_tweets r))"
      by (simp add: buildThread_def)
  qed
  from 1 2 3 show ?thesis by (intro conjI)
qed

text \<open>
  A seed of time 1 read at 604800002 is stale; read at 604800001 its age is seven days
  exactly and it is not; a seed without \<open>created_at\<close> is never stale.
\<close>

theorem buildThread_staleness_witness:
  "ageWarning (projr (the
      (buildThread (rootRequest ''1'') (servePages [pageOf [] None])
         digitTime 604800002 ''tweet_root'' 50 testFields))) \<noteq> None
   \<and> ageWarning (projr (the
      (buildThread (rootRequest ''1'') (servePages [pageOf [] None])
         digitTime 604800001 ''tweet_root'' 50 testFields))) = None
   \<and> ageWarning (projr (the
      (buildThread
         (\<lambda>endpoint params. Inr \<lparr>data = (makeTweet ''tweet_root'' ''Root tweet'' [] ''tweet_root'')
                                          \<lparr>created_at := None\<rparr>,
                                  includes = None\<rparr>)
         (servePages [pageOf [] None])
         digitTime 604800002 ''tweet_root'' 50 testFields))) = None"
proof -
  let ?stale = "buildThread (rootRequest ''1'') (servePages [pageOf [] None])
         digitTime 604800002 ''tweet_root'' 50 testFields"
  let ?edge = "buildThread (rootRequest ''1'') (servePages [pageOf [] None])
         digitTime 604800001 ''tweet_root'' 50 testFields"
  let ?undated = "\<lparr>data = (makeTweet ''tweet_root'' ''Root tweet'' [] ''tweet_root'')
                            \<lparr>created_at := None\<rparr>,
                   includes = None\<rparr>"
  let ?none = "buildThread (\<lambda>endpoint params. Inr ?undated) (servePages [pageOf [] None])
         digitTime 604800002 ''tweet_root'' 50 testFields"
  have stale: "?stale = Some (Inr (projr (the ?stale)))" by code_simp
  have edge: "?edge = Some (Inr (projr (the ?edge)))" by code_simp
  have none: "?none = Some (Inr (projr (the ?none)))" by code_simp
  have root: "rootRequest ''1'' (''/tweets/'' @ ''tweet_root'') (rootParams testFields)
              = Inr (seedResponse ''1'')"
    by (simp add: rootRequest_def)
  have root': "(\<lambda>endpoint params. Inr ?undated :: unit + tweet twitter_v2_response)
                 (''/tweets/'' @ ''tweet_root'') (rootParams testFields) = Inr ?undated"
    by simp
  have t: "createdTime digitTime (data (seedResponse ''1'')) = Some 1" by code_simp
  have u: "created_at (data ?undated) = None" by simp
  from buildThread_staleness [OF stale root] t
  have a: "ageWarning (projr (the ?stale)) \<noteq> None" by simp
  from buildThread_staleness [OF edge root] t
  have b: "ageWarning (projr (the ?edge)) = None" by simp
  from buildThread_staleness [OF none root'] u
  have c: "ageWarning (projr (the ?none)) = None" by blast
  from a b c show ?thesis by blast
qed




text \<open>
  C8. A list response whose \<open>data\<close> is absent merges to the empty sequence, whatever
  its includes and metadata are, and so does a response whose \<open>data\<close> is the empty
  list: both cases yield zero items and neither fails.
\<close>

theorem mergeTweetList_absent_data:
  "mergeTweetList \<lparr>list_data = None, list_includes = inc, meta = m\<rparr> = []
   \<and> mergeTweetList \<lparr>list_data = Some [], list_includes = inc, meta = m\<rparr> = []"
  by (simp add: mergeTweetList_def split: prod.split)



text \<open>
  C10. Enrichment is a frame around the input item: the enriched item agrees with the
  input on the identifier, the text, the author identifier, the conversation
  identifier, the creation timestamp, the in-reply-to field, the references and the
  engagement counters; the only fields it sets are the resolved author and the
  resolved first reference.
\<close>

theorem enrichTweet_preserves_fields:
  "tweet.truncate (enrichTweet tw userMap tweetMap) = tweet.truncate tw
   \<and> tweet_id (enrichTweet tw userMap tweetMap) = tweet_id tw
   \<and> text (enrichTweet tw userMap tweetMap) = text tw
   \<and> author_id (enrichTweet tw userMap tweetMap) = author_id tw
   \<and> conversation_id (enrichTweet tw userMap tweetMap) = conversation_id tw
   \<and> created_at (enrichTweet tw userMap tweetMap) = created_at tw
   \<and> in_reply_to_user_id (enrichTweet tw userMap tweetMap) = in_reply_to_user_id tw
   \<and> referenced_tweets (enrichTweet tw userMap tweetMap) = referenced_tweets tw
   \<and> public_metrics (enrichTweet tw userMap tweetMap) = public_metrics tw"
  by (simp add: enrichTweet_def tweet.defs enriched_tweet.defs)

end
